theory Spec2Isabelle
  imports Complex_Main
begin

section \<open>Rasters, collections and the processing engine\<close>

text \<open>
  The script \<^verbatim>\<open>lulc_classification_gee.js\<close> is a client of a raster engine: every
  \<^verbatim>\<open>ee.*\<close> call builds a description of a computation that the engine evaluates later,
  when a map layer is drawn. The model gives each such description the value the engine
  computes for it: a raster, or the error the engine raises (\<open>Inl\<close>). The engine is not
  part of the script; its operations have the meaning the engine's reference gives them,
  stated with each definition below, and what the script does not depend on is left open
  as a field of the record \<open>engine\<close>.

  A raster lives on the 10 m grid the script samples at (\<^verbatim>\<open>scale: 10\<close>); a pixel is
  a cell of that grid. A band gives every pixel a value or nothing (the pixel is masked);
  an image is an ordered list of named bands. Band values are exact rationals. Where an
  engine operation always yields a one-band image, the model hands that band on and
  \<open>rename\<close> gives it its name.
\<close>

type_synonym pixel = nat
type_synonym band = "pixel \<Rightarrow> rat option"
type_synonym image = "(string \<times> band) list"

text \<open>A sample point carries the properties read off the sampled image; a training row
  adds the feature bands read at that point.\<close>

type_synonym sample = "pixel \<times> (string \<times> rat) list"
type_synonym row = "(string \<times> rat) list"

datatype error =
    BandNotFound string
  | NoBands
  | InhomogeneousCollection
  | GeometryRejected
  | AssetNotFound string
  | PropertyMissing string
  | NoTrainingData

record classifier =
  inputProperties :: "string list"
  predict :: "rat list \<Rightarrow> rat"

text \<open>
  What the script takes from the engine without fixing it: vector geometry (dissolving,
  simplifying, and which pixels a geometry covers, unless the engine rejects the
  geometry), the image archive (the images of a collection within a date window that
  meet a geometry), the raster assets, the seeded pseudo-random order in which sample
  points are drawn, and the seeded random-forest learner (number of trees, seed,
  training table of feature vectors and labels).
\<close>

record 'g engine =
  dissolve :: "'g \<Rightarrow> 'g"
  simplify :: "nat \<Rightarrow> 'g \<Rightarrow> 'g"
  cover :: "'g \<Rightarrow> error + pixel list"
  imagery :: "string \<Rightarrow> string \<Rightarrow> string \<Rightarrow> 'g \<Rightarrow> error + image list"
  asset :: "string \<Rightarrow> error + image"
  shuffle :: "nat \<Rightarrow> pixel \<Rightarrow> nat"
  forest :: "nat \<Rightarrow> nat \<Rightarrow> (rat list \<times> rat) list \<Rightarrow> rat list \<Rightarrow> rat"

record 'g feature =
  geometry :: "'g"
  properties :: "(string \<times> string) list"

subsection \<open>Engine operations the script calls\<close>

text \<open>Mapping an operation that may fail over a list: the first error is the result.\<close>

fun map_e :: "('a \<Rightarrow> error + 'b) \<Rightarrow> 'a list \<Rightarrow> error + 'b list" where
  "map_e f [] = Inr []"
| "map_e f (x # xs) =
     (case f x of
        Inl e \<Rightarrow> Inl e
      | Inr y \<Rightarrow> (case map_e f xs of Inl e \<Rightarrow> Inl e | Inr ys \<Rightarrow> Inr (y # ys)))"

text \<open>\<^verbatim>\<open>image.select(names)\<close>: the named bands in the order asked for; a name the
  image does not have is an error.\<close>

definition select :: "image \<Rightarrow> string list \<Rightarrow> error + image" where
  "select img names =
     map_e (\<lambda>n. case map_of img n of None \<Rightarrow> Inl (BandNotFound n) | Some b \<Rightarrow> Inr (n, b)) names"

definition select_band :: "image \<Rightarrow> string \<Rightarrow> error + band" where
  "select_band img n = (case map_of img n of None \<Rightarrow> Inl (BandNotFound n) | Some b \<Rightarrow> Inr b)"

text \<open>Pixel-wise comparison and logic give 1 or 0 where their inputs have a value.\<close>

definition img_eq :: "band \<Rightarrow> rat \<Rightarrow> band" where
  "img_eq b c = (\<lambda>p. case b p of None \<Rightarrow> None | Some v \<Rightarrow> Some (if v = c then 1 else 0))"

definition img_or :: "band \<Rightarrow> band \<Rightarrow> band" where
  "img_or a b =
     (\<lambda>p. case a p of
        None \<Rightarrow> None
      | Some x \<Rightarrow> (case b p of None \<Rightarrow> None | Some y \<Rightarrow> Some (if x = 0 \<and> y = 0 then 0 else 1)))"

definition img_not :: "band \<Rightarrow> band" where
  "img_not b = (\<lambda>p. case b p of None \<Rightarrow> None | Some v \<Rightarrow> Some (if v = 0 then 1 else 0))"

text \<open>\<^verbatim>\<open>image.updateMask(mask)\<close>: a pixel keeps its value only where the mask has a
  value other than 0; the bands and their names stay.\<close>

definition updateMask :: "image \<Rightarrow> band \<Rightarrow> image" where
  "updateMask img m =
     map (\<lambda>(n, b). (n, \<lambda>p. case m p of None \<Rightarrow> None | Some v \<Rightarrow> if v = 0 then None else b p)) img"

text \<open>\<^verbatim>\<open>image.normalizedDifference([a, b])\<close>: one band, \<open>(a - b) / (a + b)\<close>; the pixel
  is masked where an input is masked or negative, and has no value where the sum is 0.\<close>

definition normalizedDifference :: "image \<Rightarrow> string \<Rightarrow> string \<Rightarrow> error + band" where
  "normalizedDifference img a b =
     (case select_band img a of
        Inl e \<Rightarrow> Inl e
      | Inr x \<Rightarrow>
          (case select_band img b of
             Inl e \<Rightarrow> Inl e
           | Inr y \<Rightarrow>
               Inr (\<lambda>p. case x p of
                      None \<Rightarrow> None
                    | Some u \<Rightarrow>
                        (case y p of
                           None \<Rightarrow> None
                         | Some v \<Rightarrow>
                             if u < 0 \<or> v < 0 \<or> u + v = 0 then None
                             else Some ((u - v) / (u + v))))))"

text \<open>\<^verbatim>\<open>band.rename(name)\<close> names a one-band image; \<^verbatim>\<open>image.addBands(list)\<close>
  puts the bands of the listed images after those of the image.\<close>

definition rename :: "band \<Rightarrow> string \<Rightarrow> image" where
  "rename b n = [(n, b)]"

definition addBands :: "image \<Rightarrow> image list \<Rightarrow> image" where
  "addBands img extra = img @ concat extra"

text \<open>The median of a list of values; of an even number of values, the mean of the
  middle two.\<close>

definition median_of :: "rat list \<Rightarrow> rat option" where
  "median_of vs =
     (let s = sort vs; n = length s in
      if n = 0 then None
      else if odd n then Some (s ! (n div 2))
      else Some ((s ! (n div 2 - 1) + s ! (n div 2)) / 2))"

text \<open>The value a band of an image has at a pixel, if the image has the band and the
  pixel is not masked; and the values a collection has there.\<close>

definition band_value :: "image \<Rightarrow> string \<Rightarrow> pixel \<Rightarrow> rat option" where
  "band_value img n p = (case map_of img n of None \<Rightarrow> None | Some b \<Rightarrow> b p)"

definition values_at :: "image list \<Rightarrow> string \<Rightarrow> pixel \<Rightarrow> rat list" where
  "values_at col n p = List.map_filter (\<lambda>img. band_value img n p) col"

text \<open>\<^verbatim>\<open>collection.median()\<close>: band by band and pixel by pixel, over the images that
  have a value there. The empty collection reduces to an image without bands; the images
  must agree on their bands.\<close>

definition median :: "image list \<Rightarrow> error + image" where
  "median col =
     (case col of
        [] \<Rightarrow> Inr []
      | first # _ \<Rightarrow>
          if list_all (\<lambda>img. map fst img = map fst first) col
          then Inr (map (\<lambda>n. (n, \<lambda>p. median_of (values_at col n p))) (map fst first))
          else Inl InhomogeneousCollection)"

text \<open>\<^verbatim>\<open>image.clip(geom)\<close>: pixels outside the geometry are masked.\<close>

definition clip :: "'g engine \<Rightarrow> image \<Rightarrow> 'g \<Rightarrow> error + image" where
  "clip eng img geom =
     (case cover eng geom of
        Inl e \<Rightarrow> Inl e
      | Inr cells \<Rightarrow> Inr (map (\<lambda>(n, b). (n, \<lambda>p. if p \<in> set cells then b p else None)) img))"

text \<open>\<^verbatim>\<open>image.remap(from, to)\<close> on the first band: a value listed in \<open>from\<close> becomes
  the value at the same place in \<open>to\<close>; with no default value given, a pixel with any
  other value is masked.\<close>

definition remap :: "image \<Rightarrow> rat list \<Rightarrow> rat list \<Rightarrow> error + band" where
  "remap img src dst =
     (case img of
        [] \<Rightarrow> Inl NoBands
      | (n, b) # _ \<Rightarrow>
          Inr (\<lambda>p. case b p of None \<Rightarrow> None | Some v \<Rightarrow> map_of (zip src dst) v))"

text \<open>The properties a point takes from an image: the bands that have a value there.\<close>

definition props_at :: "image \<Rightarrow> pixel \<Rightarrow> (string \<times> rat) list" where
  "props_at img p = List.map_filter (\<lambda>(n, b). map_option (Pair n) (b p)) img"

text \<open>
  \<^verbatim>\<open>image.stratifiedSample({numPoints, classBand, region, scale, geometries, seed})\<close>:
  for every value the class band takes inside the region, up to \<open>numPoints\<close> of the
  pixels with that value, drawn in the engine's pseudo-random order for the seed
  (\<open>numPoints\<close> is the number of points per class); all of them when the class has
  fewer. Masked pixels belong to no class.
\<close>

definition class_values :: "band \<Rightarrow> pixel list \<Rightarrow> rat list" where
  "class_values cb cells = remdups (List.map_filter cb cells)"

definition class_draw :: "'g engine \<Rightarrow> nat \<Rightarrow> nat \<Rightarrow> band \<Rightarrow> pixel list \<Rightarrow> rat \<Rightarrow> pixel list" where
  "class_draw eng numPoints seed cb cells c =
     take numPoints (sort_key (shuffle eng seed) (filter (\<lambda>p. cb p = Some c) cells))"

definition stratifiedSample ::
  "'g engine \<Rightarrow> image \<Rightarrow> nat \<Rightarrow> string \<Rightarrow> 'g \<Rightarrow> nat \<Rightarrow> error + sample list" where
  "stratifiedSample eng img numPoints classBand region seed =
     (case select_band img classBand of
        Inl e \<Rightarrow> Inl e
      | Inr cb \<Rightarrow>
          (case cover eng region of
             Inl e \<Rightarrow> Inl e
           | Inr cells \<Rightarrow>
               Inr (concat (map (\<lambda>c. map (\<lambda>p. (p, props_at img p))
                                        (class_draw eng numPoints seed cb cells c))
                                (class_values cb cells)))))"

text \<open>\<^verbatim>\<open>image.sampleRegions({collection, properties, scale})\<close>: one row per point,
  with the image's band values there and the listed properties of the point; a point
  where a band is masked gives no row.\<close>

definition sampleRegions :: "image \<Rightarrow> sample list \<Rightarrow> string list \<Rightarrow> row list" where
  "sampleRegions img pts props =
     List.map_filter
       (\<lambda>(p, ps). if list_all (\<lambda>(n, b). b p \<noteq> None) img
                  then Some (props_at img p @ filter (\<lambda>(k, v). k \<in> set props) ps)
                  else None)
       pts"

text \<open>
  \<^verbatim>\<open>ee.Classifier.smileRandomForest({numberOfTrees, seed}).train({features,
  classProperty, inputProperties})\<close>: every row must have the class property and the
  input properties; the engine refuses an empty table. The fitted model is the engine's.
\<close>

definition table_row :: "string \<Rightarrow> string list \<Rightarrow> row \<Rightarrow> error + (rat list \<times> rat)" where
  "table_row classProperty inputs r =
     (case map_of r classProperty of
        None \<Rightarrow> Inl (PropertyMissing classProperty)
      | Some l \<Rightarrow>
          (case map_e (\<lambda>n. case map_of r n of None \<Rightarrow> Inl (PropertyMissing n) | Some v \<Rightarrow> Inr v) inputs of
             Inl e \<Rightarrow> Inl e
           | Inr xs \<Rightarrow> Inr (xs, l)))"

definition smileRandomForest_train ::
  "'g engine \<Rightarrow> nat \<Rightarrow> nat \<Rightarrow> row list \<Rightarrow> string \<Rightarrow> string list \<Rightarrow> error + classifier" where
  "smileRandomForest_train eng numberOfTrees seed features classProperty inputs =
     (case map_e (table_row classProperty inputs) features of
        Inl e \<Rightarrow> Inl e
      | Inr table \<Rightarrow>
          if table = [] then Inl NoTrainingData
          else Inr \<lparr>inputProperties = inputs, predict = forest eng seed numberOfTrees table\<rparr>)"

text \<open>\<^verbatim>\<open>image.classify(classifier)\<close>: the classifier reads its input properties from
  the bands of those names; a pixel where one of them is masked gets no label.\<close>

definition classify :: "image \<Rightarrow> classifier \<Rightarrow> error + band" where
  "classify img clf =
     (case select img (inputProperties clf) of
        Inl e \<Rightarrow> Inl e
      | Inr sel \<Rightarrow>
          Inr (\<lambda>p. if list_all (\<lambda>(n, b). b p \<noteq> None) sel
                   then Some (predict clf (map snd (props_at sel p)))
                   else None))"

section \<open>The script\<close>

subsection \<open>Parameters\<close>

definition NAME_FIELD :: string where
  "NAME_FIELD = ''NM_MUN''"

definition DATE_START :: string where
  "DATE_START = ''2025-07-10''"

definition DATE_END :: string where
  "DATE_END = ''2025-07-30''"

definition S2 :: string where
  "S2 = ''COPERNICUS/S2_SR_HARMONIZED''"

definition BANDS10 :: "string list" where
  "BANDS10 = [''B2'', ''B3'', ''B4'', ''B5'', ''B6'', ''B7'', ''B8'', ''B8A'', ''B11'', ''B12'']"

definition APPLY_CLOUD_MASK :: bool where
  "APPLY_CLOUD_MASK = True"

subsection \<open>Helper functions\<close>

definition stableGeom :: "'g engine \<Rightarrow> 'g feature \<Rightarrow> 'g" where
  "stableGeom eng feat = simplify eng 50 (dissolve eng (geometry feat))"

definition maskS2 :: "image \<Rightarrow> error + image" where
  "maskS2 img =
     (case select_band img ''SCL'' of
        Inl e \<Rightarrow> Inl e
      | Inr scl \<Rightarrow>
          (let cloud = img_or (img_or (img_or (img_eq scl 8) (img_eq scl 9)) (img_eq scl 10)) (img_eq scl 11);
               shadow = img_eq scl 3;
               sat = img_eq scl 1;
               mask = img_not (img_or (img_or cloud shadow) sat)
           in Inr (updateMask img mask)))"

definition addIndices :: "image \<Rightarrow> error + image" where
  "addIndices img =
     (case normalizedDifference img ''B8'' ''B4'' of
        Inl e \<Rightarrow> Inl e
      | Inr ndvi \<Rightarrow>
          (case normalizedDifference img ''B3'' ''B8'' of
             Inl e \<Rightarrow> Inl e
           | Inr ndwi \<Rightarrow>
               (case normalizedDifference img ''B11'' ''B8'' of
                  Inl e \<Rightarrow> Inl e
                | Inr ndbi \<Rightarrow>
                    Inr (addBands img [rename ndvi ''NDVI'', rename ndwi ''NDWI'', rename ndbi ''NDBI'']))))"

text \<open>The three steps of \<^verbatim>\<open>getComposite\<close> before the reduction: the mapped
  collection \<^verbatim>\<open>masked\<close>, its size \<^verbatim>\<open>validCount\<close>, and the collection
  \<^verbatim>\<open>ee.Algorithms.If(validCount.gt(0), masked, col)\<close> picks.\<close>

definition masked_collection :: "image list \<Rightarrow> error + image list" where
  "masked_collection col = (if APPLY_CLOUD_MASK then map_e maskS2 col else Inr col)"

definition validCount :: "image list \<Rightarrow> error + nat" where
  "validCount col = (case masked_collection col of Inl e \<Rightarrow> Inl e | Inr masked \<Rightarrow> Inr (length masked))"

definition selected :: "image list \<Rightarrow> error + image list" where
  "selected col =
     (case masked_collection col of
        Inl e \<Rightarrow> Inl e
      | Inr masked \<Rightarrow>
          (case validCount col of
             Inl e \<Rightarrow> Inl e
           | Inr n \<Rightarrow> Inr (if n > 0 then masked else col)))"

definition getComposite :: "'g engine \<Rightarrow> 'g \<Rightarrow> error + image" where
  "getComposite eng geom =
     (case imagery eng S2 DATE_START DATE_END geom of
        Inl e \<Rightarrow> Inl e
      | Inr col \<Rightarrow>
          (case selected col of
             Inl e \<Rightarrow> Inl e
           | Inr sel \<Rightarrow>
               (case median sel of
                  Inl e \<Rightarrow> Inl e
                | Inr med \<Rightarrow>
                    (case clip eng med geom of
                       Inl e \<Rightarrow> Inl e
                     | Inr clipped \<Rightarrow> addIndices clipped))))"

definition remap_from :: "rat list" where
  "remap_from = [10, 20, 30, 40, 50, 60, 70, 80, 90, 95, 100]"

definition remap_to :: "rat list" where
  "remap_to = [3, 3, 4, 4, 1, 2, 3, 0, 3, 3, 3]"

definition autoSamples :: "'g engine \<Rightarrow> 'g \<Rightarrow> error + sample list" where
  "autoSamples eng geom =
     (case asset eng ''ESA/WorldCover/v200/2021'' of
        Inl e \<Rightarrow> Inl e
      | Inr world \<Rightarrow>
          (case clip eng world geom of
             Inl e \<Rightarrow> Inl e
           | Inr wc \<Rightarrow>
               (case remap wc remap_from remap_to of
                  Inl e \<Rightarrow> Inl e
                | Inr remapped \<Rightarrow>
                    (let labeled = rename remapped ''class_auto''
                     in stratifiedSample eng labeled 500 ''class_auto'' geom 42))))"

definition trainRF ::
  "'g engine \<Rightarrow> image \<Rightarrow> sample list \<Rightarrow> string list \<Rightarrow> string \<Rightarrow> error + classifier" where
  "trainRF eng img samples bands classProp =
     (case select img bands of
        Inl e \<Rightarrow> Inl e
      | Inr sel \<Rightarrow>
          (let training = sampleRegions sel samples [classProp]
           in smileRandomForest_train eng 200 42 training classProp bands))"

subsection \<open>Execution\<close>

text \<open>
  What one pass of the loop body builds for a feature. \<^verbatim>\<open>comp\<close>,
  \<^verbatim>\<open>samples\<close>, \<^verbatim>\<open>clf\<close> and \<^verbatim>\<open>lulc\<close> are descriptions the engine
  evaluates when the layers are drawn, so an error of the engine is the value of the
  description, not an exception in the loop.
\<close>

definition inputBands :: "string list" where
  "inputBands = BANDS10 @ [''NDVI'', ''NDWI'', ''NDBI'']"

record outputs =
  out_comp :: "error + image"
  out_samples :: "error + sample list"
  out_clf :: "error + classifier"
  out_classified :: "error + image"
  out_lulc :: "error + image"

definition region_outputs :: "'g engine \<Rightarrow> 'g \<Rightarrow> outputs" where
  "region_outputs eng geom =
     (let comp = getComposite eng geom;
          samples = autoSamples eng geom;
          clf = (case comp of
                   Inl e \<Rightarrow> Inl e
                 | Inr c \<Rightarrow>
                     (case samples of
                        Inl e \<Rightarrow> Inl e
                      | Inr s \<Rightarrow> trainRF eng c s inputBands ''class_auto''));
          classified = (case comp of Inl e \<Rightarrow> Inl e | Inr c \<Rightarrow> select c inputBands);
          lulc = (case classified of
                    Inl e \<Rightarrow> Inl e
                  | Inr sel \<Rightarrow>
                      (case clf of
                         Inl e \<Rightarrow> Inl e
                       | Inr k \<Rightarrow>
                           (case classify sel k of
                              Inl e \<Rightarrow> Inl e
                            | Inr labels \<Rightarrow> clip eng (rename labels ''LULC'') geom)))
      in \<lparr>out_comp = comp, out_samples = samples, out_clf = clf,
         out_classified = classified, out_lulc = lulc\<rparr>)"

text \<open>A map layer: its title and the raster it shows, or the engine's error. (How a
  layer is drawn, its value range and palette, is not modelled; nor is the layer of city
  boundaries added before the loop.)\<close>

type_synonym layer = "string \<times> (error + image)"

definition region_layers :: "'g engine \<Rightarrow> 'g feature \<Rightarrow> string \<Rightarrow> layer list" where
  "region_layers eng f name =
     (let out = region_outputs eng (stableGeom eng f)
      in [(''RGB - '' @ name,
           (case out_comp out of Inl e \<Rightarrow> Inl e | Inr c \<Rightarrow> select c [''B4'', ''B3'', ''B2''])),
          (''LULC - '' @ name, out_lulc out)])"

text \<open>\<^verbatim>\<open>ee.String(f.get(NAME_FIELD)).getInfo()\<close> asks the engine for the value at
  once: a feature without the property makes the call throw.\<close>

definition feature_name :: "'g feature \<Rightarrow> error + string" where
  "feature_name f =
     (case map_of (properties f) NAME_FIELD of
        None \<Rightarrow> Inl (PropertyMissing NAME_FIELD)
      | Some s \<Rightarrow> Inr s)"

text \<open>The \<^verbatim>\<open>for\<close> loop over the features of the collection, in order: the layers on
  the map so far, and the exception that ended the script, if one did.\<close>

fun execution_loop :: "'g engine \<Rightarrow> 'g feature list \<Rightarrow> layer list \<Rightarrow> layer list \<times> error option" where
  "execution_loop eng [] layers = (layers, None)"
| "execution_loop eng (f # rest) layers =
     (case feature_name f of
        Inl e \<Rightarrow> (layers, Some e)
      | Inr name \<Rightarrow> execution_loop eng rest (layers @ region_layers eng f name))"

section \<open>Clear observations, and small engines to run the script on\<close>

text \<open>The scene-classification codes \<^verbatim>\<open>maskS2\<close> tests for: cloud and cirrus and
  snow or ice (8, 9, 10, 11), cloud shadow (3), saturated or defective (1).\<close>

definition rejected_codes :: "rat list" where
  "rejected_codes = [8, 9, 10, 11, 3, 1]"

text \<open>The observations of a band at a pixel that come from images whose scene
  classification there is none of the rejected codes.\<close>

definition clear_values :: "image list \<Rightarrow> string \<Rightarrow> pixel \<Rightarrow> rat list" where
  "clear_values col n p =
     List.map_filter
       (\<lambda>img. case band_value img ''SCL'' p of
                None \<Rightarrow> None
              | Some code \<Rightarrow> if code \<in> set rejected_codes then None else band_value img n p)
       col"

text \<open>A scene with the same values at every pixel: its scene-classification code, the
  near-infrared band B8, and one value for the other nine bands.\<close>

definition scene :: "rat \<Rightarrow> rat \<Rightarrow> rat \<Rightarrow> image" where
  "scene code nir other =
     map (\<lambda>n. (n, \<lambda>p. Some (if n = ''B8'' then nir else other))) BANDS10 @ [(''SCL'', \<lambda>p. Some code)]"

text \<open>An engine whose geometries are lists of pixels, with a given archive and land-cover
  raster; it draws sample points in pixel order and its forest answers with the label of
  the first training row.\<close>

definition demo_engine :: "(pixel list \<Rightarrow> image list) \<Rightarrow> image \<Rightarrow> (pixel list) engine" where
  "demo_engine archive world =
     \<lparr>dissolve = (\<lambda>g. g), simplify = (\<lambda>tol g. g), cover = Inr,
      imagery = (\<lambda>name start stop g. Inr (archive g)), asset = (\<lambda>name. Inr world),
      shuffle = (\<lambda>seed p. p), forest = (\<lambda>seed trees table x. snd (hd table))\<rparr>"

text \<open>Four scenes of one place: two clear (code 4), one cloud (code 9), one bare (code 5).\<close>

definition four_scenes :: "image list" where
  "four_scenes = [scene 4 800 500, scene 9 900 700, scene 5 600 300, scene 4 400 100]"

text \<open>A land-cover raster with tree cover (code 10) on pixels 0 and 1 and built-up
  (code 50) elsewhere; an archive with one clear scene everywhere but for geometries that
  hold pixel 5, which have no imagery; the engine made of the two; and a land-cover raster
  that is masked everywhere.\<close>

definition two_classes :: image where
  "two_classes = [(''Map'', \<lambda>p. Some (if p < 2 then 10 else 50))]"

definition town_archive :: "pixel list \<Rightarrow> image list" where
  "town_archive g = (if 5 \<in> set g then [] else [scene 4 800 400])"

definition town_engine :: "(pixel list) engine" where
  "town_engine = demo_engine town_archive two_classes"

definition blank_world :: image where
  "blank_world = [(''Map'', \<lambda>p. None)]"

text \<open>Two features for the town engine: region A holds pixel 5 and so has no imagery,
  region B has imagery and land cover.\<close>

definition region_A :: "(pixel list) feature" where
  "region_A = \<lparr>geometry = [5], properties = [(''NM_MUN'', ''A'')]\<rparr>"

definition region_B :: "(pixel list) feature" where
  "region_B = \<lparr>geometry = [0, 1, 2], properties = [(''NM_MUN'', ''B'')]\<rparr>"

text \<open>A land-cover raster with tree cover (code 10) on the pixels below \<open>a\<close> and
  built-up (code 50) on the others.\<close>

definition two_blocks :: "nat \<Rightarrow> image" where
  "two_blocks a = [(''Map'', \<lambda>p. Some (if p < a then 10 else 50))]"

text \<open>
  The values a list of bands has at a pixel of an image, in the order of the list, if the
  image has all of them there; and the table that pairs, for every sample point where the
  image has these values, the values with the point's class label.
\<close>

definition feature_vector :: "image \<Rightarrow> string list \<Rightarrow> pixel \<Rightarrow> rat list option" where
  "feature_vector img names p = those (map (\<lambda>n. band_value img n p) names)"

definition training_table ::
  "image \<Rightarrow> string list \<Rightarrow> string \<Rightarrow> sample list \<Rightarrow> (rat list \<times> rat) list" where
  "training_table img names cp pts =
     List.map_filter
       (\<lambda>(q, ps). case feature_vector img names q of
                    None \<Rightarrow> None
                  | Some xs \<Rightarrow> map_option (Pair xs) (map_of ps cp))
       pts"

section \<open>Properties\<close>

subsection \<open>Mapping the cloud mask over a collection\<close>

lemma length_map_e: "map_e f xs = Inr ys \<Longrightarrow> length ys = length xs"
  by (induction xs arbitrary: ys) (auto split: sum.splits)

text \<open>
  Claim C10. Masking works on the pixels of each image and never drops an image: when
  \<^verbatim>\<open>col.map(maskS2)\<close> evaluates, it has as many images as \<^verbatim>\<open>col\<close>, so
  \<^verbatim>\<open>validCount\<close> is the size of the unmasked collection and the test
  \<^verbatim>\<open>validCount.gt(0)\<close> holds exactly when the unmasked collection is not empty,
  however many pixels the mask removes.
\<close>

theorem C10_masking_keeps_every_image:
  "masked_collection col = Inr masked \<Longrightarrow>
     length masked = length col \<and> validCount col = Inr (length col) \<and>
     ((0 < length masked) = (col \<noteq> []))"
  by (auto simp: masked_collection_def validCount_def dest: length_map_e split: if_splits)

text \<open>A collection of one scene that is cloud (code 9) at every pixel still counts one
  image after masking.\<close>

theorem C10_masking_keeps_every_image_witness:
  "\<exists>m. masked_collection [scene 9 800 400] = Inr m \<and> length m = 1 \<and>
       validCount [scene 9 800 400] = Inr 1"
proof -
  obtain m where m: "masked_collection [scene 9 800 400] = Inr m"
    by (simp add: masked_collection_def APPLY_CLOUD_MASK_def maskS2_def scene_def
        select_band_def BANDS10_def)
  from C10_masking_keeps_every_image [OF m] m show ?thesis by simp
qed

text \<open>Hence the branch of \<^verbatim>\<open>ee.Algorithms.If\<close> that picks the unmasked collection is
  taken only for the empty collection, where both branches agree.\<close>

lemma selected_is_masked: "selected col = masked_collection col"
  by (cases col)
    (auto simp: selected_def validCount_def masked_collection_def split: sum.splits
      dest: length_map_e)

subsection \<open>Spectral indices\<close>

lemma nd_bounds:
  fixes u v :: rat
  assumes "0 \<le> u" "0 \<le> v" "u + v \<noteq> 0"
  shows "- 1 \<le> (u - v) / (u + v) \<and> (u - v) / (u + v) \<le> 1"
proof -
  from assms have pos: "0 < u + v" by linarith
  from pos assms show ?thesis by (simp add: pos_le_divide_eq pos_divide_le_eq)
qed

lemma normalizedDifference_value:
  assumes "normalizedDifference img a b = Inr nd" and "nd p = Some v"
  shows "\<exists>x y. band_value img a p = Some x \<and> band_value img b p = Some y \<and>
           v = (x - y) / (x + y) \<and> - 1 \<le> v \<and> v \<le> 1"
proof -
  from assms(1) obtain bx by' where bx: "map_of img a = Some bx" and by': "map_of img b = Some by'"
    and nd: "nd = (\<lambda>p. case bx p of None \<Rightarrow> None
                    | Some u \<Rightarrow> (case by' p of None \<Rightarrow> None
                         | Some v \<Rightarrow> if u < 0 \<or> v < 0 \<or> u + v = 0 then None
                             else Some ((u - v) / (u + v))))"
    by (auto simp: normalizedDifference_def select_band_def split: option.splits)
  from assms(2) nd obtain x y where x: "bx p = Some x" and y: "by' p = Some y"
    and ok: "\<not> (x < 0 \<or> y < 0 \<or> x + y = 0)" and v: "v = (x - y) / (x + y)"
    by (auto split: option.splits if_splits)
  from ok have "0 \<le> x" "0 \<le> y" "x + y \<noteq> 0" by auto
  from nd_bounds [OF this] v x y bx by' show ?thesis
    by (auto simp: band_value_def)
qed

text \<open>
  Claim C9. The three bands \<^verbatim>\<open>addIndices\<close> appends are NDVI, NDWI and NDBI, in this
  order after the bands of the composite. Wherever one of them has a value, that value is
  \<open>(A - B) / (A + B)\<close> of its band pair at that pixel (B8 and B4, B3 and B8, B11 and
  B8), and it lies between -1 and 1.
\<close>

theorem C9_indices_are_normalized_differences:
  assumes "addIndices img = Inr out"
  shows "\<exists>ndvi ndwi ndbi.
           out = img @ [(''NDVI'', ndvi), (''NDWI'', ndwi), (''NDBI'', ndbi)] \<and>
           (\<forall>v. ndvi p = Some v \<longrightarrow>
              (\<exists>a b. band_value img ''B8'' p = Some a \<and> band_value img ''B4'' p = Some b \<and>
                 v = (a - b) / (a + b) \<and> - 1 \<le> v \<and> v \<le> 1)) \<and>
           (\<forall>v. ndwi p = Some v \<longrightarrow>
              (\<exists>a b. band_value img ''B3'' p = Some a \<and> band_value img ''B8'' p = Some b \<and>
                 v = (a - b) / (a + b) \<and> - 1 \<le> v \<and> v \<le> 1)) \<and>
           (\<forall>v. ndbi p = Some v \<longrightarrow>
              (\<exists>a b. band_value img ''B11'' p = Some a \<and> band_value img ''B8'' p = Some b \<and>
                 v = (a - b) / (a + b) \<and> - 1 \<le> v \<and> v \<le> 1))"
proof -
  from assms obtain ndvi ndwi ndbi where
    1: "normalizedDifference img ''B8'' ''B4'' = Inr ndvi" and
    2: "normalizedDifference img ''B3'' ''B8'' = Inr ndwi" and
    3: "normalizedDifference img ''B11'' ''B8'' = Inr ndbi" and
    out: "out = img @ [(''NDVI'', ndvi), (''NDWI'', ndwi), (''NDBI'', ndbi)]"
    by (auto simp: addIndices_def addBands_def rename_def split: sum.splits)
  show ?thesis
    using out normalizedDifference_value [OF 1] normalizedDifference_value [OF 2]
      normalizedDifference_value [OF 3]
    by blast
qed

text \<open>On a scene with B8 = 800 and every other band = 400 the three indices are
  1/3, -1/3 and -1/3.\<close>

theorem C9_indices_are_normalized_differences_witness:
  "\<exists>out ndvi ndwi ndbi. addIndices (scene 4 800 400) = Inr out \<and>
     out = scene 4 800 400 @ [(''NDVI'', ndvi), (''NDWI'', ndwi), (''NDBI'', ndbi)] \<and>
     ndvi 0 = Some (1 / 3) \<and> ndwi 0 = Some (- 1 / 3) \<and> ndbi 0 = Some (- 1 / 3)"
proof -
  define out where "out = scene 4 800 400 @
     [(''NDVI'', \<lambda>p::pixel. Some (1 / 3 :: rat)), (''NDWI'', \<lambda>p. Some (- 1 / 3)), (''NDBI'', \<lambda>p. Some (- 1 / 3))]"
  have ev: "addIndices (scene 4 800 400) = Inr out"
    by (simp add: out_def addIndices_def normalizedDifference_def select_band_def scene_def
        BANDS10_def addBands_def rename_def)
  from C9_indices_are_normalized_differences [OF ev, of 0] obtain ndvi ndwi ndbi where
    o: "out = scene 4 800 400 @ [(''NDVI'', ndvi), (''NDWI'', ndwi), (''NDBI'', ndbi)]"
    by blast
  from o have "ndvi 0 = Some (1 / 3) \<and> ndwi 0 = Some (- 1 / 3) \<and> ndbi 0 = Some (- 1 / 3)"
    by (auto simp: out_def)
  with ev o show ?thesis by blast
qed


subsection \<open>The composite\<close>

lemma isr_obtain: "\<not> isl x \<Longrightarrow> \<exists>y. x = Inr y"
  by (cases x) simp_all

lemma map_of_relabel:
  "map_of (map (\<lambda>(n, b). (n, f b)) img) n = map_option f (map_of img n)"
  by (induction img) auto

lemma map_of_tabulate:
  "map_of (map (\<lambda>n. (n, g n)) names) n = (if n \<in> set names then Some (g n) else None)"
  by (induction names) auto

lemma mask_value:
  "(case scl p of None \<Rightarrow> None | Some v \<Rightarrow>
      if v = 8 \<or> v = 9 \<or> v = 10 \<or> v = 11 \<or> v = 3 \<or> v = 1 then Some (0::rat) else Some 1) =
   img_not (img_or (img_or (img_or (img_or (img_or (img_eq scl 8) (img_eq scl 9)) (img_eq scl 10))
      (img_eq scl 11)) (img_eq scl 3)) (img_eq scl 1)) p"
  by (simp add: img_not_def img_or_def img_eq_def split: option.splits)

lemma maskS2_value:
  assumes "maskS2 img = Inr m"
  shows "band_value m n p =
     (case band_value img ''SCL'' p of
        None \<Rightarrow> None
      | Some code \<Rightarrow> if code \<in> set rejected_codes then None else band_value img n p)"
proof -
  from assms obtain scl where scl: "map_of img ''SCL'' = Some scl"
    and m: "m = updateMask img (img_not (img_or (img_or (img_or (img_or (img_or (img_eq scl 8)
         (img_eq scl 9)) (img_eq scl 10)) (img_eq scl 11)) (img_eq scl 3)) (img_eq scl 1)))"
    by (auto simp: maskS2_def select_band_def Let_def split: option.splits)
  show ?thesis
    unfolding m band_value_def updateMask_def map_of_relabel scl
    by (simp add: mask_value [symmetric] rejected_codes_def split: option.splits)
qed

lemma maskS2_names: "maskS2 img = Inr m \<Longrightarrow> map fst m = map fst img"
  by (auto simp: maskS2_def updateMask_def Let_def split: sum.splits)

lemma masked_values:
  "map_e maskS2 col = Inr ms \<Longrightarrow> values_at ms n p = clear_values col n p"
proof (induction col arbitrary: ms)
  case Nil
  then show ?case by (simp add: values_at_def clear_values_def List.map_filter_simps)
next
  case (Cons img col)
  from Cons.prems obtain m rest where m: "maskS2 img = Inr m" and rest: "map_e maskS2 col = Inr rest"
    and ms: "ms = m # rest"
    by (auto split: sum.splits)
  have ih: "values_at rest n p = clear_values col n p"
    by (rule Cons.IH [OF rest])
  have l: "values_at (m # rest) n p =
      (case band_value m n p of None \<Rightarrow> values_at rest n p | Some v \<Rightarrow> v # values_at rest n p)"
    unfolding values_at_def by (simp add: List.map_filter_simps)
  have r: "clear_values (img # col) n p =
      (case (case band_value img ''SCL'' p of
               None \<Rightarrow> None
             | Some code \<Rightarrow> if code \<in> set rejected_codes then None else band_value img n p) of
         None \<Rightarrow> clear_values col n p
       | Some v \<Rightarrow> v # clear_values col n p)"
    unfolding clear_values_def by (simp add: List.map_filter_simps)
  show ?case
    unfolding ms l r ih maskS2_value [OF m, of n p] ..
qed

lemma masked_head_names:
  "map_e maskS2 (first # rest) = Inr ms \<Longrightarrow> \<exists>m ms'. ms = m # ms' \<and> map fst m = map fst first"
  by (auto split: sum.splits dest: maskS2_names)

lemma median_value:
  assumes "median (m # ms) = Inr med" and "n \<in> set (map fst m)"
  shows "map_of med n = Some (\<lambda>p. median_of (values_at (m # ms) n p))"
proof -
  from assms(1) have "med = map (\<lambda>n. (n, \<lambda>p. median_of (values_at (m # ms) n p))) (map fst m)"
    by (auto simp: median_def split: if_splits)
  with assms(2) show ?thesis
    by (simp only: map_of_tabulate if_True)
qed

lemma clip_value:
  assumes "clip eng img geom = Inr clipped" and "cover eng geom = Inr cells"
  shows "map_of clipped n = map_option (\<lambda>b p. if p \<in> set cells then b p else None) (map_of img n)"
  using assms by (auto simp: clip_def map_of_relabel)

lemma addIndices_keeps:
  assumes "addIndices img = Inr out" and "map_of img n = Some b"
  shows "map_of out n = Some b"
  using assms by (auto simp: addIndices_def addBands_def split: sum.splits)

text \<open>
  Claim C6. With the cloud mask on, the value of the composite at a pixel of the region,
  for a band of the source images, is the median of the clear observations only: the
  values of those images whose scene classification at that pixel is none of 8, 9, 10, 11
  (cloud, cirrus, snow or ice), 3 (cloud shadow) and 1 (saturated or defective). An
  observation with one of these codes never enters the median, whether or not a clear
  observation exists at the pixel.
\<close>

theorem C6_median_over_clear_observations:
  assumes col: "imagery eng S2 DATE_START DATE_END geom = Inr (first # rest)"
    and cells: "cover eng geom = Inr cells"
    and comp: "getComposite eng geom = Inr composite"
    and n: "n \<in> set (map fst first)"
    and p: "p \<in> set cells"
  shows "band_value composite n p = median_of (clear_values (first # rest) n p)"
proof -
  from comp col obtain ms med clipped where
    ms: "map_e maskS2 (first # rest) = Inr ms" and med: "median ms = Inr med" and
    cl: "clip eng med geom = Inr clipped" and ix: "addIndices clipped = Inr composite"
    by (auto simp: getComposite_def selected_is_masked masked_collection_def APPLY_CLOUD_MASK_def
        split: sum.splits)
  from masked_head_names [OF ms] obtain m ms' where m: "ms = m # ms'" and names: "map fst m = map fst first"
    by blast
  from n names have "n \<in> set (map fst m)" by simp
  from median_value [OF med [unfolded m] this]
  have "map_of med n = Some (\<lambda>p. median_of (values_at ms n p))" by (simp add: m)
  with clip_value [OF cl cells, of n]
  have "map_of clipped n = Some (\<lambda>p. if p \<in> set cells then median_of (values_at ms n p) else None)"
    by simp
  from addIndices_keeps [OF ix this] p
  have "band_value composite n p = median_of (values_at ms n p)"
    by (simp add: band_value_def)
  with masked_values [OF ms] show ?thesis by simp
qed


lemma four_scenes_composite:
  "\<not> isl (getComposite (demo_engine (\<lambda>g. four_scenes) []) [0, 1])"
  by (simp add: getComposite_def demo_engine_def selected_is_masked masked_collection_def
      APPLY_CLOUD_MASK_def maskS2_def four_scenes_def scene_def select_band_def BANDS10_def
      median_def updateMask_def clip_def addIndices_def normalizedDifference_def Let_def)

text \<open>Of the four scenes the cloudy one (700) is left out: the median of 500, 300 and
  100 is 300.\<close>

theorem C6_median_over_clear_observations_witness:
  "\<exists>c. getComposite (demo_engine (\<lambda>g. four_scenes) []) [0, 1] = Inr c \<and>
     clear_values four_scenes ''B4'' 0 = [500, 300, 100] \<and> band_value c ''B4'' 0 = Some 300"
proof -
  let ?E = "demo_engine (\<lambda>g. four_scenes) []"
  from four_scenes_composite obtain c where c: "getComposite ?E [0, 1] = Inr c"
    by (auto dest: isr_obtain)
  have col: "imagery ?E S2 DATE_START DATE_END [0, 1] = Inr (scene 4 800 500 # tl four_scenes)"
    by (simp add: demo_engine_def four_scenes_def)
  have cells: "cover ?E [0, 1] = Inr [0, 1]"
    by (simp add: demo_engine_def)
  have n: "''B4'' \<in> set (map fst (scene 4 800 500))"
    by (simp add: scene_def BANDS10_def)
  have cv: "clear_values four_scenes ''B4'' 0 = [500, 300, 100]"
    by (simp add: clear_values_def four_scenes_def scene_def BANDS10_def band_value_def
        rejected_codes_def List.map_filter_simps)
  have fs: "scene 4 800 500 # tl four_scenes = four_scenes"
    by (simp add: four_scenes_def)
  have "band_value c ''B4'' 0 = Some 300"
    using C6_median_over_clear_observations [OF col cells c n, of 0] by (simp add: fs cv median_of_def)
  with c cv show ?thesis by blast
qed

subsection \<open>Samples, training and classification\<close>

lemma map_e_member:
  "map_e f xs = Inr ys \<Longrightarrow> y \<in> set ys \<Longrightarrow> \<exists>x\<in>set xs. f x = Inr y"
  by (induction xs arbitrary: ys) (auto split: sum.splits)

lemma in_set_map_filter:
  "y \<in> set (List.map_filter f xs) \<longleftrightarrow> (\<exists>x\<in>set xs. f x = Some y)"
  by (induction xs) (auto split: option.splits)

lemma props_at_member:
  "(k, v) \<in> set (props_at img p) \<Longrightarrow> \<exists>b. (k, b) \<in> set img \<and> b p = Some v"
  by (auto simp: props_at_def in_set_map_filter)

lemma remap_range:
  "remap img src dst = Inr r \<Longrightarrow> r p = Some v \<Longrightarrow> v \<in> set dst"
  by (auto simp: remap_def split: list.splits option.splits dest!: map_of_SomeD set_zip_rightD)

lemma autoSamples_labels:
  assumes "autoSamples eng geom = Inr s" and "(q, ps) \<in> set s" and "(k, v) \<in> set ps"
  shows "v \<in> set remap_to"
proof -
  from assms(1) obtain world wc remapped where
    r: "remap wc remap_from remap_to = Inr remapped" and
    st: "stratifiedSample eng (rename remapped ''class_auto'') 500 ''class_auto'' geom 42 = Inr s"
    by (auto simp: autoSamples_def Let_def split: sum.splits)
  from st assms(2) have "ps = props_at (rename remapped ''class_auto'') q"
    by (auto simp: stratifiedSample_def split: sum.splits)
  with assms(3) have "remapped q = Some v"
    by (auto simp: rename_def dest: props_at_member)
  with r show ?thesis by (rule remap_range)
qed

lemma sampleRegions_rows:
  "r \<in> set (sampleRegions sel s props) \<Longrightarrow>
     \<exists>q ps. (q, ps) \<in> set s \<and> r = props_at sel q @ filter (\<lambda>(k, v). k \<in> set props) ps"
  by (fastforce simp: sampleRegions_def in_set_map_filter split: if_splits)

lemma table_row_label:
  "table_row cp inputs r = Inr (xs, l) \<Longrightarrow> map_of r cp = Some l"
  by (auto simp: table_row_def split: option.splits sum.splits)

lemma trainRF_votes:
  assumes "trainRF eng c s bands cp = Inr k"
  shows "\<exists>sel table. select c bands = Inr sel \<and> table \<noteq> [] \<and>
           map_e (table_row cp bands) (sampleRegions sel s [cp]) = Inr table \<and>
           predict k = forest eng 42 200 table"
  using assms
  by (auto simp: trainRF_def smileRandomForest_train_def Let_def split: sum.splits if_splits)

lemma select_names: "select img names = Inr sel \<Longrightarrow> map fst sel = names"
  unfolding select_def
  by (induction names arbitrary: sel) (auto split: sum.splits option.splits)

lemma class_auto_not_input: "''class_auto'' \<notin> set inputBands"
  by (simp add: inputBands_def BANDS10_def)

lemma training_labels:
  assumes s: "autoSamples eng geom = Inr s"
    and sel: "select c inputBands = Inr sel"
    and tab: "map_e (table_row ''class_auto'' inputBands) (sampleRegions sel s [''class_auto'']) = Inr table"
    and row: "(xs, l) \<in> set table"
  shows "l \<in> set remap_to"
proof -
  from map_e_member [OF tab row] obtain r where
    r: "r \<in> set (sampleRegions sel s [''class_auto''])" and
    tr: "table_row ''class_auto'' inputBands r = Inr (xs, l)"
    by blast
  from sampleRegions_rows [OF r] obtain q ps where
    qps: "(q, ps) \<in> set s" and
    req: "r = props_at sel q @ filter (\<lambda>(k, v). k \<in> set [''class_auto'']) ps"
    by blast
  have "map_of (props_at sel q) ''class_auto'' = None"
  proof (rule ccontr)
    assume "map_of (props_at sel q) ''class_auto'' \<noteq> None"
    then obtain v where "(''class_auto'', v) \<in> set (props_at sel q)"
      by (auto dest: map_of_SomeD)
    then have "''class_auto'' \<in> fst ` set sel"
      by (force dest: props_at_member)
    with select_names [OF sel] class_auto_not_input show False
      by (metis set_map)
  qed
  with table_row_label [OF tr] req
  have "map_of (filter (\<lambda>(k, v). k \<in> set [''class_auto'']) ps) ''class_auto'' = Some l"
    by (simp add: map_add_def)
  then have "(''class_auto'', l) \<in> set ps"
    by (auto dest: map_of_SomeD)
  with s qps show ?thesis by (rule autoSamples_labels)
qed

text \<open>
  Claim C5. Take an engine whose forest, as a vote among trees fitted to the training
  table does, answers with a label of that table. Then every value of every band of the
  region's classification raster is one of 0, 1, 2, 3, 4, and none is a WorldCover code
  (10, 20, ..., 95, 100): the labels of the samples are values of the remap table, and
  the training table has no other labels.
\<close>

theorem C5_labels_in_taxonomy:
  assumes votes: "\<And>table x. table \<noteq> [] \<Longrightarrow> forest eng 42 200 table x \<in> snd ` set table"
    and lulc: "out_lulc (region_outputs eng geom) = Inr img"
    and band: "(n, b) \<in> set img"
    and v: "b p = Some v"
  shows "v \<in> {0, 1, 2, 3, 4} \<and> v \<notin> set remap_from"
proof -
  from lulc obtain c sel s k labels where
    sel: "select c inputBands = Inr sel" and
    s: "autoSamples eng geom = Inr s" and
    k: "trainRF eng c s inputBands ''class_auto'' = Inr k" and
    labels: "classify sel k = Inr labels" and
    cl: "clip eng (rename labels ''LULC'') geom = Inr img"
    by (auto simp: region_outputs_def Let_def split: sum.splits)
  from cl band v have "labels p = Some v"
    by (auto simp: clip_def rename_def split: sum.splits if_splits)
  with labels obtain x where x: "v = predict k x"
    by (auto simp: classify_def split: sum.splits if_splits)
  from trainRF_votes [OF k] obtain sel' table where
    sel': "select c inputBands = Inr sel'" and ne: "table \<noteq> []" and
    tab: "map_e (table_row ''class_auto'' inputBands) (sampleRegions sel' s [''class_auto'']) = Inr table" and
    pk: "predict k = forest eng 42 200 table"
    by blast
  from votes [OF ne, of x] x pk obtain xs where "(xs, v) \<in> set table"
    by force
  from training_labels [OF s sel' tab this] have "v \<in> set remap_to" .
  then show ?thesis
    by (auto simp: remap_to_def remap_from_def)
qed

text \<open>Running the script on the town engine.\<close>

lemmas town_defs = town_engine_def town_archive_def two_classes_def demo_engine_def scene_def
  BANDS10_def inputBands_def

lemmas script_defs = region_outputs_def getComposite_def selected_is_masked masked_collection_def
  APPLY_CLOUD_MASK_def maskS2_def addIndices_def autoSamples_def trainRF_def remap_from_def
  remap_to_def

lemmas engine_op_defs = select_def select_band_def img_eq_def img_or_def img_not_def
  updateMask_def normalizedDifference_def rename_def addBands_def median_of_def values_at_def
  band_value_def median_def clip_def remap_def props_at_def class_values_def class_draw_def
  stratifiedSample_def sampleRegions_def table_row_def smileRandomForest_train_def classify_def

lemma town_lulc_value:
  "(case out_lulc (region_outputs town_engine [0, 1, 2]) of
      Inl e \<Rightarrow> None
    | Inr img \<Rightarrow> band_value img ''LULC'' 0) = Some 3"
  by (simp add: town_defs script_defs engine_op_defs Let_def del: not_None_eq)

lemma town_lulc:
  "\<exists>img b. out_lulc (region_outputs town_engine [0, 1, 2]) = Inr img \<and>
     (''LULC'', b) \<in> set img \<and> b 0 = Some 3"
proof (cases "out_lulc (region_outputs town_engine [0, 1, 2])")
  case (Inl e)
  with town_lulc_value show ?thesis by simp
next
  case (Inr img)
  with town_lulc_value have "band_value img ''LULC'' 0 = Some 3" by simp
  then obtain b where "map_of img ''LULC'' = Some b" and "b 0 = Some 3"
    by (auto simp: band_value_def split: option.splits)
  with Inr show ?thesis by (auto dest: map_of_SomeD)
qed

lemma town_votes:
  "table \<noteq> [] \<Longrightarrow> forest town_engine 42 200 table x \<in> snd ` set table"
  by (simp add: town_engine_def demo_engine_def)

text \<open>The town engine's forest answers with the label of the first training row; its
  raster has label 3 at pixel 0.\<close>

theorem C5_labels_in_taxonomy_witness:
  "\<exists>img b. out_lulc (region_outputs town_engine [0, 1, 2]) = Inr img \<and>
     (''LULC'', b) \<in> set img \<and> b 0 = Some 3 \<and>
     (3 :: rat) \<in> {0, 1, 2, 3, 4} \<and> (3 :: rat) \<notin> set remap_from"
proof -
  from town_lulc obtain img b where
    img: "out_lulc (region_outputs town_engine [0, 1, 2]) = Inr img" and
    b: "(''LULC'', b) \<in> set img" and v: "b 0 = Some 3"
    by blast
  from C5_labels_in_taxonomy [OF town_votes img b v] img b v show ?thesis by blast
qed

lemma lulc_has_classifier:
  "out_lulc (region_outputs eng geom) = Inr img \<Longrightarrow> \<exists>k. out_clf (region_outputs eng geom) = Inr k"
  by (auto simp: region_outputs_def Let_def split: sum.splits)

lemma trainRF_inputs:
  "trainRF eng img s bands cp = Inr k \<Longrightarrow> inputProperties k = bands"
  by (auto simp: trainRF_def smileRandomForest_train_def Let_def split: sum.splits if_splits)

lemma map_e_cong_set: "(\<And>x. x \<in> set xs \<Longrightarrow> f x = g x) \<Longrightarrow> map_e f xs = map_e g xs"
  by (induction xs) (auto split: sum.splits)

lemma select_lookup:
  "select c names = Inr sel \<Longrightarrow> n \<in> set names \<Longrightarrow> map_of sel n = map_of c n"
  unfolding select_def
  by (induction names arbitrary: sel) (auto split: sum.splits option.splits)

lemma select_values:
  "select c names = Inr sel \<Longrightarrow> map (\<lambda>(n, b). b p) sel = map (\<lambda>n. band_value c n p) names"
  unfolding select_def band_value_def
  by (induction names arbitrary: sel) (auto split: sum.splits option.splits)

lemma select_again:
  assumes "select c names = Inr sel"
  shows "select sel names = Inr sel"
proof -
  have "select sel names = select c names"
    unfolding select_def
    by (rule map_e_cong_set) (simp add: select_lookup [OF assms])
  with assms show ?thesis by simp
qed

lemma defined_those:
  "those (map (\<lambda>(n, b). b p) img) =
     (if list_all (\<lambda>(n, b). b p \<noteq> None) img then Some (map snd (props_at img p)) else None)"
  by (induction img) (auto simp: props_at_def split: option.splits)

lemma selected_features:
  assumes "select c names = Inr sel"
  shows "feature_vector c names p =
     (if list_all (\<lambda>(n, b). b p \<noteq> None) sel then Some (map snd (props_at sel p)) else None)"
  by (simp only: defined_those [symmetric] select_values [OF assms] feature_vector_def)

lemma props_at_lookup:
  "list_all (\<lambda>(n, b). b q \<noteq> None) img \<Longrightarrow> map_of (props_at img q) n = band_value img n q"
  by (induction img) (auto simp: props_at_def band_value_def split: option.splits)

lemma lookups_those:
  "those (map f names) =
     (case map_e (\<lambda>n. case f n of None \<Rightarrow> Inl (E n) | Some v \<Rightarrow> Inr v) names of
        Inl e \<Rightarrow> None
      | Inr xs \<Rightarrow> Some xs)"
  by (induction names) (auto split: sum.splits option.splits)

lemma those_defined: "those ys = Some xs \<Longrightarrow> y \<in> set ys \<Longrightarrow> \<exists>v. y = Some v"
  by (induction ys arbitrary: xs) (auto split: option.splits)

lemma map_of_filter_key:
  "map_of (filter (\<lambda>(k, v). k = cp) ps) cp = map_of ps cp"
  by (induction ps) auto

lemma props_at_names:
  "map_of (props_at img q) n \<noteq> None \<Longrightarrow> n \<in> fst ` set img"
  by (induction img) (auto simp: props_at_def split: option.splits if_splits)

lemma table_row_value:
  assumes sel: "select c names = Inr sel" and cp: "cp \<notin> set names"
    and fv: "feature_vector c names q = Some xs"
  shows "table_row cp names (props_at sel q @ filter (\<lambda>(k, v). k \<in> set [cp]) ps) =
     (case map_of ps cp of None \<Rightarrow> Inl (PropertyMissing cp) | Some l \<Rightarrow> Inr (xs, l))"
proof -
  let ?row = "props_at sel q @ filter (\<lambda>(k, v). k \<in> set [cp]) ps"
  from selected_features [OF sel, of q] fv have all: "list_all (\<lambda>(n, b). b q \<noteq> None) sel"
    by (auto split: if_splits)
  have names: "map fst sel = names" using sel by (rule select_names)
  have "map_of (props_at sel q) cp = None"
  proof (rule ccontr)
    assume "map_of (props_at sel q) cp \<noteq> None"
    then have "cp \<in> fst ` set sel" by (rule props_at_names)
    with names cp show False by (metis set_map)
  qed
  then have label: "map_of ?row cp = map_of ps cp"
    by (simp add: map_add_def map_of_filter_key)
  have inputs: "map_of ?row n = band_value c n q" if "n \<in> set names" for n
  proof -
    from that have "band_value c n q \<in> set (map (\<lambda>n. band_value c n q) names)"
      by simp
    with fv have "\<exists>v. band_value c n q = Some v"
      unfolding feature_vector_def by (rule those_defined)
    then have "band_value c n q \<noteq> None" by auto
    moreover have "map_of (props_at sel q) n = band_value c n q"
      using props_at_lookup [OF all, of n] select_lookup [OF sel that]
      by (simp add: band_value_def)
    ultimately show ?thesis by (auto simp: map_add_def)
  qed
  have "map_e (\<lambda>n. case map_of ?row n of None \<Rightarrow> Inl (PropertyMissing n) | Some v \<Rightarrow> Inr v) names =
        map_e (\<lambda>n. case band_value c n q of None \<Rightarrow> Inl (PropertyMissing n) | Some v \<Rightarrow> Inr v) names"
    by (rule map_e_cong_set) (simp only: inputs)
  also have "\<dots> = Inr xs"
    using fv lookups_those [where f = "\<lambda>n. band_value c n q" and E = PropertyMissing and names = names]
    by (auto simp: feature_vector_def split: sum.splits)
  finally have inp:
    "map_e (\<lambda>n. case map_of ?row n of None \<Rightarrow> Inl (PropertyMissing n) | Some v \<Rightarrow> Inr v) names = Inr xs" .
  show ?thesis
    unfolding table_row_def label inp by (simp split: option.splits)
qed

lemma training_rows:
  assumes sel: "select c names = Inr sel" and cp: "cp \<notin> set names"
  shows "map_e (table_row cp names) (sampleRegions sel s [cp]) = Inr table \<Longrightarrow>
           table = training_table c names cp s"
proof (induction s arbitrary: table)
  case Nil
  then show ?case by (simp add: sampleRegions_def training_table_def)
next
  case (Cons pt s)
  obtain q ps where pt: "pt = (q, ps)" by (cases pt)
  show ?case
  proof (cases "feature_vector c names q")
    case None
    with selected_features [OF sel, of q] have "\<not> list_all (\<lambda>(n, b). b q \<noteq> None) sel"
      by (auto split: if_splits)
    then have "sampleRegions sel (pt # s) [cp] = sampleRegions sel s [cp]"
      by (simp add: sampleRegions_def pt)
    with Cons.prems have "table = training_table c names cp s"
      by (simp add: Cons.IH)
    with None show ?thesis by (simp add: training_table_def pt)
  next
    case (Some xs)
    with selected_features [OF sel, of q] have "list_all (\<lambda>(n, b). b q \<noteq> None) sel"
      by (auto split: if_splits)
    then have sr: "sampleRegions sel (pt # s) [cp] =
        (props_at sel q @ filter (\<lambda>(k, v). k \<in> set [cp]) ps) # sampleRegions sel s [cp]"
      by (simp add: sampleRegions_def pt)
    from Cons.prems [unfolded sr] table_row_value [OF sel cp Some, of ps]
    obtain l rest where l: "map_of ps cp = Some l" and
      rest: "map_e (table_row cp names) (sampleRegions sel s [cp]) = Inr rest" and
      table: "table = (xs, l) # rest"
      by (auto split: sum.splits option.splits)
    from Cons.IH [OF rest] table l Some show ?thesis
      by (simp add: training_table_def pt)
  qed
qed

lemma trainRF_table:
  assumes "trainRF eng c s names cp = Inr k" and "cp \<notin> set names"
  shows "inputProperties k = names \<and> training_table c names cp s \<noteq> [] \<and>
         predict k = forest eng 42 200 (training_table c names cp s)"
proof -
  from assms(1) obtain sel table where sel: "select c names = Inr sel" and ne: "table \<noteq> []" and
    tab: "map_e (table_row cp names) (sampleRegions sel s [cp]) = Inr table" and
    k: "predict k = forest eng 42 200 table"
    by (auto dest: trainRF_votes)
  from training_rows [OF sel assms(2) tab] ne k trainRF_inputs [OF assms(1)] show ?thesis
    by simp
qed

lemma classify_labels:
  assumes sel: "select c names = Inr sel" and k: "inputProperties k = names"
  shows "\<exists>labels. classify sel k = Inr labels \<and>
           (\<forall>p. labels p = map_option (predict k) (feature_vector c names p))"
proof -
  have "(if list_all (\<lambda>(n, b). b p \<noteq> None) sel
         then Some (predict k (map snd (props_at sel p))) else None) =
        map_option (predict k) (feature_vector c names p)" for p
    by (simp add: selected_features [OF sel, of p])
  then show ?thesis
    by (simp add: classify_def k select_again [OF sel])
qed

lemma composite_needs_cover:
  "getComposite eng geom = Inr c \<Longrightarrow> \<exists>cells. cover eng geom = Inr cells"
  by (auto simp: getComposite_def clip_def split: sum.splits)

text \<open>
  Claim C8. Whenever a classifier is trained for a region, training and inference read
  the same bands in the same order: the ten bands of \<^verbatim>\<open>BANDS10\<close> followed by NDVI,
  NDWI and NDBI. These are the classifier's input properties; the classifier is the
  engine's forest fitted to the table of the composite's values of exactly these bands,
  in this order, at the sample points; the image the loop classifies is the composite
  restricted to exactly these bands in this order; and the label of a pixel of the
  region in the classification raster is the classifier's answer to the composite's
  values of these bands, in this order, at that pixel.
\<close>

theorem C8_same_bands_for_training_and_inference:
  assumes "out_clf (region_outputs eng geom) = Inr k"
  shows "\<exists>c s sel cells lab.
           out_comp (region_outputs eng geom) = Inr c \<and>
           out_samples (region_outputs eng geom) = Inr s \<and>
           cover eng geom = Inr cells \<and>
           inputBands = [''B2'', ''B3'', ''B4'', ''B5'', ''B6'', ''B7'', ''B8'', ''B8A'',
             ''B11'', ''B12'', ''NDVI'', ''NDWI'', ''NDBI''] \<and>
           inputProperties k = inputBands \<and>
           training_table c inputBands ''class_auto'' s \<noteq> [] \<and>
           predict k = forest eng 42 200 (training_table c inputBands ''class_auto'' s) \<and>
           select c inputBands = Inr sel \<and> map fst sel = inputBands \<and>
           out_classified (region_outputs eng geom) = Inr sel \<and>
           out_lulc (region_outputs eng geom) = Inr [(''LULC'', lab)] \<and>
           lab p = (if p \<in> set cells
                    then map_option (predict k) (feature_vector c inputBands p) else None)"
proof -
  from assms obtain c s where c: "getComposite eng geom = Inr c"
    and s: "autoSamples eng geom = Inr s"
    and t: "trainRF eng c s inputBands ''class_auto'' = Inr k"
    by (auto simp: region_outputs_def Let_def split: sum.splits)
  from composite_needs_cover [OF c] obtain cells where cells: "cover eng geom = Inr cells"
    by blast
  note tt = trainRF_table [OF t class_auto_not_input]
  from t obtain sel where sel: "select c inputBands = Inr sel"
    by (auto simp: trainRF_def split: sum.splits)
  from tt have k: "inputProperties k = inputBands" by simp
  from classify_labels [OF sel k] obtain labels where
    cl: "classify sel k = Inr labels" and
    lp: "labels p = map_option (predict k) (feature_vector c inputBands p)"
    by blast
  define lab where "lab = (\<lambda>p. if p \<in> set cells then labels p else None)"
  have lulc: "out_lulc (region_outputs eng geom) = Inr [(''LULC'', lab)]"
    by (simp add: region_outputs_def Let_def c s t sel cl clip_def cells rename_def lab_def)
  have names: "inputBands = [''B2'', ''B3'', ''B4'', ''B5'', ''B6'', ''B7'', ''B8'', ''B8A'',
             ''B11'', ''B12'', ''NDVI'', ''NDWI'', ''NDBI'']"
    by (simp add: inputBands_def BANDS10_def)
  have "out_comp (region_outputs eng geom) = Inr c"
    "out_samples (region_outputs eng geom) = Inr s"
    "out_classified (region_outputs eng geom) = Inr sel"
    by (simp_all add: region_outputs_def Let_def c s sel)
  moreover have "lab p = (if p \<in> set cells
                    then map_option (predict k) (feature_vector c inputBands p) else None)"
    by (simp add: lab_def lp)
  ultimately show ?thesis
    using cells names tt sel select_names [OF sel] lulc by blast
qed

text \<open>For the town engine, the label at pixel 0 is the classifier's answer to the
  thirteen values of the composite there, which is 3.\<close>

theorem C8_same_bands_for_training_and_inference_witness:
  "\<exists>k c s lab. out_clf (region_outputs town_engine [0, 1, 2]) = Inr k \<and>
     out_comp (region_outputs town_engine [0, 1, 2]) = Inr c \<and>
     out_samples (region_outputs town_engine [0, 1, 2]) = Inr s \<and>
     inputProperties k = [''B2'', ''B3'', ''B4'', ''B5'', ''B6'', ''B7'', ''B8'', ''B8A'',
       ''B11'', ''B12'', ''NDVI'', ''NDWI'', ''NDBI''] \<and>
     training_table c inputBands ''class_auto'' s \<noteq> [] \<and>
     predict k = forest town_engine 42 200 (training_table c inputBands ''class_auto'' s) \<and>
     out_lulc (region_outputs town_engine [0, 1, 2]) = Inr [(''LULC'', lab)] \<and>
     lab 0 = map_option (predict k) (feature_vector c inputBands 0) \<and>
     lab 0 = Some 3"
proof -
  let ?R = "region_outputs town_engine [0, 1, 2]"
  from town_lulc obtain img b where img: "out_lulc ?R = Inr img" and
    b: "(''LULC'', b) \<in> set img" and b0: "b 0 = Some 3"
    by blast
  from lulc_has_classifier [OF img] obtain k where k: "out_clf ?R = Inr k"
    by blast
  from C8_same_bands_for_training_and_inference [OF k, of 0] obtain c s cells lab where
    c: "out_comp ?R = Inr c" and s: "out_samples ?R = Inr s" and
    cells: "cover town_engine [0, 1, 2] = Inr cells" and
    names: "inputBands = [''B2'', ''B3'', ''B4'', ''B5'', ''B6'', ''B7'', ''B8'', ''B8A'',
       ''B11'', ''B12'', ''NDVI'', ''NDWI'', ''NDBI'']" and
    ip: "inputProperties k = inputBands" and
    ne: "training_table c inputBands ''class_auto'' s \<noteq> []" and
    pk: "predict k = forest town_engine 42 200 (training_table c inputBands ''class_auto'' s)" and
    lulc: "out_lulc ?R = Inr [(''LULC'', lab)]" and
    lab: "lab 0 = (if 0 \<in> set cells
                   then map_option (predict k) (feature_vector c inputBands 0) else None)"
    by blast
  from cells have "cells = [0, 1, 2]"
    by (simp add: town_engine_def demo_engine_def)
  with lab have l0: "lab 0 = map_option (predict k) (feature_vector c inputBands 0)"
    by simp
  from img lulc b b0 have "lab 0 = Some 3" by simp
  with k c s names ip ne pk lulc l0 show ?thesis by metis
qed

lemma map_filter_empty:
  "\<forall>x\<in>set xs. f x = None \<Longrightarrow> List.map_filter f xs = []"
  by (induction xs) auto

lemma no_coverage_no_samples:
  assumes cells: "cover eng geom = Inr cells"
    and world: "asset eng ''ESA/WorldCover/v200/2021'' = Inr ((n0, b0) # others)"
    and blank: "\<forall>p\<in>set cells. b0 p = None"
  shows "autoSamples eng geom = Inr []"
proof -
  let ?cb = "\<lambda>p. case (if p \<in> set cells then b0 p else None) of
                   None \<Rightarrow> None
                 | Some v \<Rightarrow> map_of (zip remap_from remap_to) v"
  from blank have "\<forall>p\<in>set cells. ?cb p = None" by simp
  then have "List.map_filter ?cb cells = []" by (rule map_filter_empty)
  then have "class_values ?cb cells = []" by (simp add: class_values_def)
  with cells world show ?thesis
    by (simp add: autoSamples_def clip_def remap_def rename_def stratifiedSample_def
        select_band_def)
qed

text \<open>
  Claim C7. If the land-cover raster is masked at every pixel of the region, the sample
  set is empty and the region gets neither a classifier nor a classification raster: both
  are errors. When the composite has the input bands, the error is the engine's refusal
  to train on an empty table.
\<close>

theorem C7_no_coverage_is_an_error:
  assumes cells: "cover eng geom = Inr cells"
    and world: "asset eng ''ESA/WorldCover/v200/2021'' = Inr ((n0, b0) # others)"
    and blank: "\<forall>p\<in>set cells. b0 p = None"
  shows "out_samples (region_outputs eng geom) = Inr [] \<and>
         isl (out_clf (region_outputs eng geom)) \<and>
         isl (out_lulc (region_outputs eng geom)) \<and>
         (\<not> isl (out_classified (region_outputs eng geom)) \<longrightarrow>
            out_clf (region_outputs eng geom) = Inl NoTrainingData \<and>
            out_lulc (region_outputs eng geom) = Inl NoTrainingData)"
proof -
  have s: "autoSamples eng geom = Inr []"
    using assms by (rule no_coverage_no_samples)
  have t: "trainRF eng c [] inputBands ''class_auto'' =
      (case select c inputBands of Inl e \<Rightarrow> Inl e | Inr sel \<Rightarrow> Inl NoTrainingData)" for c
    by (simp add: trainRF_def sampleRegions_def smileRandomForest_train_def split: sum.splits)
  show ?thesis
    by (auto simp: region_outputs_def Let_def s t split: sum.splits)
qed

lemma blank_classified:
  "\<not> isl (out_classified (region_outputs (demo_engine town_archive blank_world) [0, 1, 2]))"
  by (simp add: region_outputs_def getComposite_def selected_is_masked masked_collection_def
      APPLY_CLOUD_MASK_def maskS2_def addIndices_def demo_engine_def town_archive_def scene_def
      BANDS10_def inputBands_def select_def select_band_def updateMask_def
      normalizedDifference_def rename_def addBands_def median_def clip_def Let_def)

theorem C7_no_coverage_is_an_error_witness:
  "out_samples (region_outputs (demo_engine town_archive blank_world) [0, 1, 2]) = Inr [] \<and>
   out_clf (region_outputs (demo_engine town_archive blank_world) [0, 1, 2]) = Inl NoTrainingData \<and>
   out_lulc (region_outputs (demo_engine town_archive blank_world) [0, 1, 2]) = Inl NoTrainingData"
proof -
  let ?E = "demo_engine town_archive blank_world"
  have cells: "cover ?E [0, 1, 2] = Inr [0, 1, 2]"
    by (simp add: demo_engine_def)
  have world: "asset ?E ''ESA/WorldCover/v200/2021'' = Inr ((''Map'', \<lambda>p. None) # [])"
    by (simp add: demo_engine_def blank_world_def)
  have blank: "\<forall>p\<in>set [0, 1, 2 :: pixel]. (\<lambda>p. None :: rat option) p = None"
    by simp
  from C7_no_coverage_is_an_error [OF cells world blank] blank_classified show ?thesis by blast
qed

subsection \<open>The loop over the regions\<close>

lemma loop_single:
  "feature_name f = Inr name \<Longrightarrow> execution_loop eng [f] [] = (region_layers eng f name, None)"
  by simp

text \<open>
  Claim C3. The loop body only builds descriptions and adds layers; the one value it asks
  the engine for at once is the feature's name. So for a batch whose features all have a
  name, the loop runs to its end whatever the engine makes of any region, and the layers
  on the map are, region by region and in order, the layers each region gets when it is
  processed alone: an error of the engine in one region (no imagery, no samples, a
  rejected geometry, no training data) is the content of that region's layers and of no
  other's.
\<close>

theorem C3_regions_are_isolated:
  assumes "\<forall>f\<in>set fs. \<not> isl (feature_name f)"
  shows "execution_loop eng fs layers =
           (layers @ concat (map (\<lambda>f. fst (execution_loop eng [f] [])) fs), None)"
  using assms
proof (induction fs arbitrary: layers)
  case Nil
  then show ?case by simp
next
  case (Cons f fs)
  from Cons.prems obtain name where name: "feature_name f = Inr name"
    by (cases "feature_name f") auto
  from Cons.prems have "\<forall>g\<in>set fs. \<not> isl (feature_name g)" by simp
  from Cons.IH [OF this, of "layers @ region_layers eng f name"] name
  show ?case by simp
qed

lemma region_A_lulc: "isl (out_lulc (region_outputs town_engine [5]))"
  by (simp add: region_outputs_def getComposite_def selected_is_masked masked_collection_def
      APPLY_CLOUD_MASK_def town_engine_def town_archive_def demo_engine_def median_def clip_def
      addIndices_def normalizedDifference_def select_band_def Let_def)

text \<open>Region A has no imagery and its layers are errors; region B, next in the batch,
  gets its classification raster.\<close>

theorem C3_regions_are_isolated_witness:
  "snd (execution_loop town_engine [region_A, region_B] []) = None \<and>
   map fst (fst (execution_loop town_engine [region_A, region_B] [])) =
     [''RGB - A'', ''LULC - A'', ''RGB - B'', ''LULC - B''] \<and>
   isl (snd (fst (execution_loop town_engine [region_A, region_B] []) ! 1)) \<and>
   \<not> isl (snd (fst (execution_loop town_engine [region_A, region_B] []) ! 3))"
proof -
  have a: "feature_name region_A = Inr ''A''" and b: "feature_name region_B = Inr ''B''"
    by (simp_all add: feature_name_def region_A_def region_B_def NAME_FIELD_def)
  then have named: "\<forall>f\<in>set [region_A, region_B]. \<not> isl (feature_name f)"
    by simp
  have ga: "stableGeom town_engine region_A = [5]" and gb: "stableGeom town_engine region_B = [0, 1, 2]"
    by (simp_all add: stableGeom_def town_engine_def demo_engine_def region_A_def region_B_def)
  from town_lulc have lb: "\<not> isl (out_lulc (region_outputs town_engine [0, 1, 2]))"
    by auto
  have la: "fst (execution_loop town_engine [region_A] []) = region_layers town_engine region_A ''A''"
    by (simp only: loop_single [OF a] fst_conv)
  have lb': "fst (execution_loop town_engine [region_B] []) = region_layers town_engine region_B ''B''"
    by (simp only: loop_single [OF b] fst_conv)
  have "execution_loop town_engine [region_A, region_B] [] =
      (region_layers town_engine region_A ''A'' @ region_layers town_engine region_B ''B'', None)"
    using C3_regions_are_isolated [OF named, of town_engine "[]"] by (simp only: la lb' list.map concat.simps append_Nil append_Nil2)
  moreover from lb have "\<not> isl (out_lulc (region_outputs town_engine [0, Suc 0, 2]))"
    by simp
  ultimately show ?thesis
    by (simp add: region_layers_def Let_def ga gb region_A_lulc)
qed

lemma reseed_fields:
  "cover (eng\<lparr>shuffle := order, forest := learner\<rparr>) = cover eng"
  "imagery (eng\<lparr>shuffle := order, forest := learner\<rparr>) = imagery eng"
  "asset (eng\<lparr>shuffle := order, forest := learner\<rparr>) = asset eng"
  "shuffle (eng\<lparr>shuffle := order, forest := learner\<rparr>) = order"
  "forest (eng\<lparr>shuffle := order, forest := learner\<rparr>) = learner"
  by simp_all

lemma clip_reseed: "clip (eng\<lparr>shuffle := order, forest := learner\<rparr>) img geom = clip eng img geom"
  unfolding clip_def reseed_fields ..

lemma getComposite_reseed:
  "getComposite (eng\<lparr>shuffle := order, forest := learner\<rparr>) geom = getComposite eng geom"
  unfolding getComposite_def clip_reseed reseed_fields ..

lemma autoSamples_reseed:
  assumes "order 42 = shuffle eng 42"
  shows "autoSamples (eng\<lparr>shuffle := order, forest := learner\<rparr>) geom = autoSamples eng geom"
  unfolding autoSamples_def clip_reseed stratifiedSample_def class_draw_def reseed_fields assms ..

lemma trainRF_reseed:
  assumes "learner 42 200 = forest eng 42 200"
  shows "trainRF (eng\<lparr>shuffle := order, forest := learner\<rparr>) c s bands cp = trainRF eng c s bands cp"
  unfolding trainRF_def smileRandomForest_train_def reseed_fields assms ..

text \<open>
  Claim C4. Every operation of the engine is a function of its arguments, and the script
  hands the two seeded ones the constant seed 42 (and 200 trees). So what a region gets
  (composite, sample set, classifier and its predictions, classification raster) does
  not change when the engine's pseudo-random order and learner are replaced by any others
  that agree with them at seed 42: nothing else of the engine's randomness is consulted,
  and two runs on the same inputs give the same outputs.
\<close>

theorem C4_outputs_depend_on_seed_42_only:
  assumes "order 42 = shuffle eng 42" and "learner 42 200 = forest eng 42 200"
  shows "region_outputs (eng\<lparr>shuffle := order, forest := learner\<rparr>) geom = region_outputs eng geom"
  unfolding region_outputs_def getComposite_reseed clip_reseed
    autoSamples_reseed [of order eng, OF assms(1)] trainRF_reseed [of learner eng, OF assms(2)] ..

theorem C4_outputs_depend_on_seed_42_only_witness:
  "region_outputs (town_engine\<lparr>shuffle := (\<lambda>seed p. if seed = 42 then p else 7 - p),
      forest := (\<lambda>seed trees table x. if seed = 42 then snd (hd table) else 9)\<rparr>) [0, 1, 2] =
   region_outputs town_engine [0, 1, 2]"
  by (rule C4_outputs_depend_on_seed_42_only) (simp_all add: town_engine_def demo_engine_def)

subsection \<open>The size of the sample set\<close>

lemma length_class_draw:
  "length (class_draw eng n seed cb cells c) = min n (length (filter (\<lambda>p. cb p = Some c) cells))"
  by (simp add: class_draw_def min.commute)

lemma stratifiedSample_length:
  assumes "select_band img cbn = Inr cb" and "cover eng geom = Inr cells"
  shows "\<exists>s. stratifiedSample eng img n cbn geom seed = Inr s \<and>
           length s = (\<Sum>c\<leftarrow>class_values cb cells. min n (length (filter (\<lambda>p. cb p = Some c) cells)))"
  using assms
  by (simp add: stratifiedSample_def length_concat comp_def length_class_draw)

lemma class_draw_member:
  "q \<in> set (class_draw eng n seed cb cells c) \<Longrightarrow> q \<in> set cells \<and> cb q = Some c"
  by (auto simp: class_draw_def dest: in_set_takeD)

text \<open>Every sample point is a pixel of the region and carries, as its only property,
  the remapped land-cover value of that pixel.\<close>

lemma autoSamples_points:
  assumes "autoSamples eng geom = Inr s" and "(q, ps) \<in> set s"
  shows "\<exists>wc cb cells c. remap wc remap_from remap_to = Inr cb \<and> cover eng geom = Inr cells \<and>
           q \<in> set cells \<and> cb q = Some c \<and> ps = [(''class_auto'', c)]"
proof -
  from assms(1) obtain wc cb where
    r: "remap wc remap_from remap_to = Inr cb" and
    st: "stratifiedSample eng (rename cb ''class_auto'') 500 ''class_auto'' geom 42 = Inr s"
    by (auto simp: autoSamples_def Let_def split: sum.splits)
  from st obtain cells where cells: "cover eng geom = Inr cells" and
    s: "s = concat (map (\<lambda>c. map (\<lambda>p. (p, props_at (rename cb ''class_auto'') p))
                          (class_draw eng 500 42 cb cells c)) (class_values cb cells))"
    by (auto simp: stratifiedSample_def select_band_def rename_def split: sum.splits)
  from assms(2) s obtain c where "q \<in> set (class_draw eng 500 42 cb cells c)"
    and ps: "ps = props_at (rename cb ''class_auto'') q"
    by auto
  then have q: "q \<in> set cells" "cb q = Some c"
    by (auto dest: class_draw_member)
  with ps have "ps = [(''class_auto'', c)]"
    by (simp add: props_at_def rename_def)
  with r cells q show ?thesis by blast
qed

lemma sum_list_min_bound: "(\<Sum>c\<leftarrow>cs. min n (f c)) \<le> n * length cs"
  by (induction cs) auto

lemma class_values_range:
  assumes "remap img src dst = Inr cb"
  shows "distinct (class_values cb cells) \<and> set (class_values cb cells) \<subseteq> set dst"
proof -
  have "c \<in> set dst" if "c \<in> set (List.map_filter cb cells)" for c
    using that remap_range [OF assms] by (auto simp: in_set_map_filter)
  then show ?thesis by (auto simp: class_values_def)
qed

lemma at_most_five_classes:
  assumes "distinct cs" and "set cs \<subseteq> set remap_to"
  shows "length cs \<le> 5"
proof -
  have "set remap_to = {0, 1, 2, 3, 4}" by (auto simp: remap_to_def)
  then have "card (set remap_to) = 5" by simp
  moreover from assms(2) have "card (set cs) \<le> card (set remap_to)"
    by (intro card_mono) simp_all
  ultimately show ?thesis using assms(1) by (simp add: distinct_card)
qed

text \<open>With at most five remapped classes, a sample set has at most 2500 points.\<close>

lemma autoSamples_count:
  assumes "autoSamples eng geom = Inr s"
  shows "length s \<le> 2500"
proof -
  from assms obtain wc cb where
    r: "remap wc remap_from remap_to = Inr cb" and
    st: "stratifiedSample eng (rename cb ''class_auto'') 500 ''class_auto'' geom 42 = Inr s"
    by (auto simp: autoSamples_def Let_def split: sum.splits)
  from st obtain cells where cells: "cover eng geom = Inr cells"
    by (auto simp: stratifiedSample_def split: sum.splits)
  have sel: "select_band (rename cb ''class_auto'') ''class_auto'' = Inr cb"
    by (simp add: select_band_def rename_def)
  from stratifiedSample_length [OF sel cells, of 500 42] st
  have "length s = (\<Sum>c\<leftarrow>class_values cb cells. min 500 (length (filter (\<lambda>p. cb p = Some c) cells)))"
    by simp
  also have "\<dots> \<le> 500 * length (class_values cb cells)"
    by (rule sum_list_min_bound)
  also from class_values_range [OF r, of cells] have "length (class_values cb cells) \<le> 5"
    by (intro at_most_five_classes) simp_all
  finally show ?thesis by simp
qed

lemma map_filter_total:
  "\<forall>x\<in>set xs. f x = Some (g x) \<Longrightarrow> List.map_filter f xs = map g xs"
  by (induction xs) auto

lemma map_constant:
  "\<forall>x\<in>set xs. f x = c \<Longrightarrow> map f xs = replicate (length xs) c"
  by (induction xs) auto

lemma remdups_block: "0 < n \<Longrightarrow> remdups (replicate n x) = [x]"
  by (induction n) auto

lemma remdups_two_blocks:
  "0 < a \<Longrightarrow> 0 < b \<Longrightarrow> x \<noteq> y \<Longrightarrow> remdups (replicate a x @ replicate b y) = [x, y]"
  by (induction a) (auto simp: remdups_block)

lemma two_blocks_samples:
  assumes a: "0 < a" and b: "0 < b"
  shows "\<exists>s. autoSamples (demo_engine archive (two_blocks a)) [0..<a + b] = Inr s \<and>
           length s = min 500 a + min 500 b"
proof -
  define cb :: band where
    "cb = (\<lambda>p. case (if p \<in> set [0..<a + b] then Some (if p < a then 10 else 50) else None) of
                 None \<Rightarrow> None
               | Some v \<Rightarrow> map_of (zip remap_from remap_to) v)"
  let ?E = "demo_engine archive (two_blocks a)"
  have cbv: "cb p = Some (if p < a then 3 else 1)" if "p < a + b" for p
    using that by (simp add: cb_def remap_from_def remap_to_def)
  have split: "[0..<a + b] = [0..<a] @ [a..<a + b]"
    by (rule upt_add_eq_append) simp
  have f3: "filter (\<lambda>p. cb p = Some 3) [0..<a + b] = [0..<a]"
    unfolding split by (auto simp: cbv intro!: filter_True filter_False)
  have f1: "filter (\<lambda>p. cb p = Some 1) [0..<a + b] = [a..<a + b]"
    unfolding split by (auto simp: cbv intro!: filter_True filter_False)
  have "List.map_filter cb [0..<a + b] = map (\<lambda>p. if p < a then 3 else 1) [0..<a + b]"
    by (rule map_filter_total) (simp add: cbv)
  also have "\<dots> = replicate a 3 @ replicate b 1"
    unfolding split
    using map_constant [of "[0..<a]" "\<lambda>p. if p < a then 3 else 1" "3 :: rat"]
      map_constant [of "[a..<a + b]" "\<lambda>p. if p < a then 3 else 1" "1 :: rat"]
    by simp
  finally have cls: "class_values cb [0..<a + b] = [3, 1]"
    using a b by (simp add: class_values_def remdups_two_blocks)
  have sel: "select_band (rename cb ''class_auto'') ''class_auto'' = Inr cb"
    by (simp add: select_band_def rename_def)
  have cov: "cover ?E [0..<a + b] = Inr [0..<a + b]"
    by (simp add: demo_engine_def)
  have "autoSamples ?E [0..<a + b] =
      stratifiedSample ?E (rename cb ''class_auto'') 500 ''class_auto'' [0..<a + b] 42"
    by (simp add: autoSamples_def demo_engine_def two_blocks_def clip_def remap_def cb_def)
  with stratifiedSample_length [OF sel cov, of 500 42] show ?thesis
    by (simp add: cls f3 f1)
qed

text \<open>
  Claim C2, at a region of 600 pixels, 300 of tree cover and 300 built-up:
  \<^verbatim>\<open>numPoints: 500\<close> is the number of points per class, so the sample set has all
  600 pixels, more than 500.
\<close>

theorem C2_sample_of_600_points:
  "\<exists>s. autoSamples (demo_engine town_archive (two_blocks 300)) [0..<600] = Inr s \<and> length s = 600"
  using two_blocks_samples [of 300 300 town_archive] by simp

subsection \<open>A scene that is cloud everywhere\<close>

text \<open>
  Claim C1, at a region of one pixel whose only scene is cloud (code 9): the scene has a
  value in each of the ten bands, the masked collection still has one image, and the
  composite is built from it: every band of the composite is masked at the pixel.
\<close>

theorem C1_overcast_composite_is_empty:
  "\<exists>c. getComposite (demo_engine (\<lambda>g. [scene 9 800 400]) []) [0] = Inr c \<and> c \<noteq> [] \<and>
     list_all (\<lambda>n. band_value c n 0 = None) (map fst c) \<and>
     list_all (\<lambda>n. band_value (scene 9 800 400) n 0 \<noteq> None) BANDS10"
  by (simp add: getComposite_def demo_engine_def selected_is_masked masked_collection_def
      APPLY_CLOUD_MASK_def maskS2_def scene_def select_band_def BANDS10_def median_def
      updateMask_def clip_def addIndices_def normalizedDifference_def addBands_def rename_def
      band_value_def values_at_def median_of_def img_not_def img_or_def img_eq_def)

end
